theory Spec2Isabelle
  imports Complex_Main "HOL-Library.Monad_Syntax"
begin

section \<open>Numbers and numpy arrays in exact arithmetic\<close>

text \<open>
  The projection is modelled twice. This section and the next read it in exact
  arithmetic: a float is a \<^typ>\<open>real\<close>, and the operations neither round nor overflow.
  The section on float64 arithmetic reads it as numpy computes it, with NaN, the
  infinities, rounding and overflow. Python integers are \<^typ>\<open>int\<close>. A one-dimensional
  \<open>ndarray\<close> and a Python list of floats are both a list at the level of values; objects
  and their identity are added in the section on the projection on objects.
\<close>

text \<open>\<open>np.radians\<close> on a scalar: degrees to radians.\<close>

definition radians :: "real \<Rightarrow> real" where
  "radians x = x * (pi / 180)"

text \<open>\<open>np.array(xs)\<close> of a list of floats: a fresh array with the same elements.\<close>

definition np_array :: "real list \<Rightarrow> real list" where
  "np_array xs = xs"

text \<open>\<open>np.radians\<close> on an array works element by element.\<close>

definition np_radians :: "real list \<Rightarrow> real list" where
  "np_radians xs = map radians xs"

text \<open>\<open>np.cos\<close> on a scalar.\<close>

definition np_cos :: "real \<Rightarrow> real" where
  "np_cos x = cos x"

text \<open>Broadcasting: \<open>r * arr\<close> and \<open>arr * c\<close> for a scalar and an array.\<close>

definition scalar_times_array :: "real \<Rightarrow> real list \<Rightarrow> real list" where
  "scalar_times_array r xs = map (\<lambda>x. r * x) xs"

definition array_times_scalar :: "real list \<Rightarrow> real \<Rightarrow> real list" where
  "array_times_scalar xs c = map (\<lambda>x. x * c) xs"

section \<open>The projection in exact arithmetic (er\_projection.py)\<close>

definition equi_rect_project :: "real list \<Rightarrow> real list \<Rightarrow> real list \<times> real list" where
  "equi_rect_project latitudes longitudes =
     (let latitudes0 = np_array latitudes;
          longitudes0 = np_array longitudes;
          r = 6371;
          centre_point_deg = - 31.952258602714696;
          center_latitude_radians = radians centre_point_deg;
          longitudes_radians = np_radians longitudes0;
          latitudes_radians = np_radians latitudes0;
          longitudes1 = array_times_scalar (scalar_times_array r longitudes_radians)
                          (np_cos center_latitude_radians);
          latitudes1 = scalar_times_array r latitudes_radians
      in (latitudes1, longitudes1))"

section \<open>float64 arithmetic\<close>

text \<open>
  A float64 is a finite number, an infinity or NaN. A finite value is given by the real
  number it stands for; the sign of zero is left out.
\<close>

datatype float64 = Finite real | PosInf | NegInf | NaN

text \<open>The comparison \<open><\<close> of IEEE 754: false whenever an operand is NaN.\<close>

fun less64 :: "float64 \<Rightarrow> float64 \<Rightarrow> bool" where
  "less64 NaN _ = False"
| "less64 _ NaN = False"
| "less64 (Finite x) (Finite y) = (x < y)"
| "less64 NegInf NegInf = False"
| "less64 NegInf _ = True"
| "less64 PosInf _ = False"
| "less64 (Finite _) PosInf = True"
| "less64 (Finite _) NegInf = False"

text \<open>A float lies in the interval from \<open>lo\<close> to \<open>hi\<close>: it is a number, and within the bounds.\<close>

fun in_range :: "real \<Rightarrow> real \<Rightarrow> float64 \<Rightarrow> bool" where
  "in_range lo hi (Finite x) = (lo \<le> x \<and> x \<le> hi)"
| "in_range lo hi _ = False"

text \<open>
  Rounding to the nearest float64, ties to the even significand: a number in the binade
  of exponent \<open>e\<close> is rounded to a multiple of \<open>2 powi (e - 52)\<close>, and the numbers below
  the smallest normal number to a multiple of \<open>2 powi (- 1074)\<close>.
\<close>

definition round_half_even :: "real \<Rightarrow> int" where
  "round_half_even y =
     (let f = \<lfloor>y\<rfloor>; d = y - of_int f
      in if d < 1 / 2 then f else if 1 / 2 < d then f + 1 else if even f then f else f + 1)"

definition exponent64 :: "real \<Rightarrow> int" where
  "exponent64 x = max \<lfloor>log 2 \<bar>x\<bar>\<rfloor> (- 1022)"

definition round64 :: "real \<Rightarrow> real" where
  "round64 x =
     (if x = 0 then 0
      else of_int (round_half_even (x / 2 powi (exponent64 x - 52))) * 2 powi (exponent64 x - 52))"

text \<open>
  The result of an operation whose exact value is \<open>x\<close>: an infinity when \<open>x\<close> rounds
  beyond the largest float64, that is from \<open>2 ^ 1024 - 2 ^ 970\<close> on, and the rounded
  value otherwise.
\<close>

definition to_float64 :: "real \<Rightarrow> float64" where
  "to_float64 x =
     (if 2 ^ 1024 - 2 ^ 970 \<le> \<bar>x\<bar> then (if 0 < x then PosInf else NegInf)
      else Finite (round64 x))"

text \<open>The sign of a float; NaN has none.\<close>

fun fsgn :: "float64 \<Rightarrow> int" where
  "fsgn (Finite x) = (if 0 < x then 1 else if x < 0 then - 1 else 0)"
| "fsgn PosInf = 1"
| "fsgn NegInf = - 1"
| "fsgn NaN = 0"

text \<open>
  Multiplication: NaN gives NaN, two finite numbers give their rounded product, and an
  infinity gives an infinity of the product's sign, or NaN when the other factor is zero.
\<close>

fun fmul :: "float64 \<Rightarrow> float64 \<Rightarrow> float64" where
  "fmul NaN _ = NaN"
| "fmul _ NaN = NaN"
| "fmul (Finite x) (Finite y) = to_float64 (x * y)"
| "fmul a b =
     (if fsgn a * fsgn b = 0 then NaN else if 0 < fsgn a * fsgn b then PosInf else NegInf)"

text \<open>Subtraction, for the differences that a claim takes of the projected values.\<close>

fun fsub :: "float64 \<Rightarrow> float64 \<Rightarrow> float64" where
  "fsub NaN _ = NaN"
| "fsub _ NaN = NaN"
| "fsub (Finite x) (Finite y) = to_float64 (x - y)"
| "fsub PosInf PosInf = NaN"
| "fsub NegInf NegInf = NaN"
| "fsub PosInf _ = PosInf"
| "fsub NegInf _ = NegInf"
| "fsub (Finite _) PosInf = NegInf"
| "fsub (Finite _) NegInf = PosInf"

text \<open>
  \<open>np.cos\<close> on a scalar: the cosine, rounded; the cosine of an infinity or of NaN is NaN.
\<close>

fun np_cos64 :: "float64 \<Rightarrow> float64" where
  "np_cos64 (Finite x) = to_float64 (cos x)"
| "np_cos64 _ = NaN"

text \<open>
  \<open>np.radians\<close> multiplies by the float64 nearest to \<open>\<pi> / 180\<close>, which is
  \<open>0x1.1df46a2529d39p-6\<close>, that is \<open>5030569068109113 / 2 ^ 58\<close>.
\<close>

definition deg2rad64 :: float64 where
  "deg2rad64 = Finite (5030569068109113 / 2 ^ 58)"

definition radians64 :: "float64 \<Rightarrow> float64" where
  "radians64 x = fmul x deg2rad64"

definition np_array64 :: "float64 list \<Rightarrow> float64 list" where
  "np_array64 xs = xs"

definition np_radians64 :: "float64 list \<Rightarrow> float64 list" where
  "np_radians64 xs = map radians64 xs"

definition scalar_times_array64 :: "float64 \<Rightarrow> float64 list \<Rightarrow> float64 list" where
  "scalar_times_array64 r xs = map (\<lambda>x. fmul r x) xs"

definition array_times_scalar64 :: "float64 list \<Rightarrow> float64 \<Rightarrow> float64 list" where
  "array_times_scalar64 xs c = map (\<lambda>x. fmul x c) xs"

section \<open>The projection in float64 arithmetic (er\_projection.py)\<close>

text \<open>
  The same function, computed as numpy does. The integer \<open>6371\<close> becomes the float64 of
  the same value, and the literal \<open>-31.952258602714696\<close> the float64 nearest to it.
\<close>

definition equi_rect_project64 :: "float64 list \<Rightarrow> float64 list \<Rightarrow> float64 list \<times> float64 list" where
  "equi_rect_project64 latitudes longitudes =
     (let latitudes0 = np_array64 latitudes;
          longitudes0 = np_array64 longitudes;
          r = Finite 6371;
          centre_point_deg = to_float64 (- 31.952258602714696);
          center_latitude_radians = radians64 centre_point_deg;
          longitudes_radians = np_radians64 longitudes0;
          latitudes_radians = np_radians64 latitudes0;
          longitudes1 = array_times_scalar64 (scalar_times_array64 r longitudes_radians)
                          (np_cos64 center_latitude_radians);
          latitudes1 = scalar_times_array64 r latitudes_radians
      in (latitudes1, longitudes1))"

section \<open>The validation models (pydantic\_models.py)\<close>

text \<open>
  A pydantic model is built from keyword arguments. Each model has a record of the
  arguments as they arrive (a field is \<open>None\<close> when the key is absent; values are
  taken after pydantic's coercion to the declared type) and a record of the validated
  object. Validation returns the object, or the list of error details that pydantic
  collects over all fields and raises as one \<open>ValidationError\<close>. A float field holds
  any float64: \<open>json.load\<close> reads the literals \<open>NaN\<close>, \<open>Infinity\<close> and \<open>-Infinity\<close>, and
  the models do not set \<open>allow_inf_nan=False\<close>.
\<close>

datatype loc_item = Key string | Index nat

datatype error_type = missing | greater_than_equal | less_than_equal | value_error string

type_synonym error_details = "loc_item list \<times> error_type"

datatype exn =
    ValidationError "error_details list"
  | ValueError string
  | TypeError
  | FileNotFoundError string
  | JSONDecodeError string

text \<open>A required field without constraints: the value must be present.\<close>

fun required :: "string \<Rightarrow> 'a option \<Rightarrow> error_details list + 'a" where
  "required name None = Inl [([Key name], missing)]"
| "required name (Some v) = Inr v"

text \<open>
  \<open>Field(..., ge=a, le=b)\<close> on a required field: the value must be present, at least
  \<open>a\<close> and at most \<open>b\<close>; a bound that is not declared is \<open>None\<close>.
\<close>

fun Field :: "string \<Rightarrow> 'a::linorder option \<Rightarrow> 'a option \<Rightarrow> 'a option \<Rightarrow> error_details list + 'a" where
  "Field name ge le None = Inl [([Key name], missing)]"
| "Field name ge le (Some v) =
     (if (case ge of None \<Rightarrow> False | Some a \<Rightarrow> v < a) then Inl [([Key name], greater_than_equal)]
      else if (case le of None \<Rightarrow> False | Some b \<Rightarrow> b < v) then Inl [([Key name], less_than_equal)]
      else Inr v)"

text \<open>
  The same on a float field. The value is rejected when it is less than \<open>ge\<close> or greater
  than \<open>le\<close>; both comparisons are false for NaN, which therefore passes.
\<close>

fun Field_float :: "string \<Rightarrow> float64 option \<Rightarrow> float64 option \<Rightarrow> float64 option \<Rightarrow> error_details list + float64" where
  "Field_float name ge le None = Inl [([Key name], missing)]"
| "Field_float name ge le (Some v) =
     (if (case ge of None \<Rightarrow> False | Some a \<Rightarrow> less64 v a) then Inl [([Key name], greater_than_equal)]
      else if (case le of None \<Rightarrow> False | Some b \<Rightarrow> less64 b v) then Inl [([Key name], less_than_equal)]
      else Inr v)"

text \<open>The errors of a field's outcome: none when it validated.\<close>

fun errors_of :: "error_details list + 'a \<Rightarrow> error_details list" where
  "errors_of (Inl es) = es"
| "errors_of (Inr _) = []"

text \<open>An error inside a nested model or list is reported under the outer location.\<close>

definition under :: "loc_item \<Rightarrow> error_details list \<Rightarrow> error_details list" where
  "under l es = map (\<lambda>(loc, t). (l # loc, t)) es"

subsection \<open>OrderInput\<close>

record OrderInput =
  order_id :: int
  lat :: float64
  lon :: float64

record OrderInput_args =
  arg_order_id :: "int option"
  arg_lat :: "float64 option"
  arg_lon :: "float64 option"

definition OrderInput_validate :: "OrderInput_args \<Rightarrow> error_details list + OrderInput" where
  "OrderInput_validate args =
     (case (Field ''order_id'' (Some 0) None (arg_order_id args),
            Field_float ''lat'' (Some (Finite (- 90))) (Some (Finite 90)) (arg_lat args),
            Field_float ''lon'' (Some (Finite (- 180))) (Some (Finite 180)) (arg_lon args)) of
        (Inr i, Inr la, Inr lo) \<Rightarrow> Inr \<lparr>order_id = i, lat = la, lon = lo\<rparr>
      | (a, b, c) \<Rightarrow> Inl (errors_of a @ errors_of b @ errors_of c))"

subsection \<open>ClusterConfig and SolverConfig\<close>

record ClusterConfig =
  cluster_type :: string
  cluster_extra :: "(string \<times> string) list"

record ClusterConfig_args =
  arg_cluster_type :: "string option"
  arg_cluster_extra :: "(string \<times> string) list"

definition ClusterConfig_validate :: "ClusterConfig_args \<Rightarrow> error_details list + ClusterConfig" where
  "ClusterConfig_validate args =
     (case required ''type'' (arg_cluster_type args) of
        Inr t \<Rightarrow> Inr \<lparr>cluster_type = t, cluster_extra = arg_cluster_extra args\<rparr>
      | Inl es \<Rightarrow> Inl es)"

record SolverConfig =
  solver_type :: string
  distance :: string
  max_solve_size :: int

record SolverConfig_args =
  arg_solver_type :: "string option"
  arg_distance :: "string option"
  arg_max_solve_size :: "int option"

definition SolverConfig_validate :: "SolverConfig_args \<Rightarrow> error_details list + SolverConfig" where
  "SolverConfig_validate args =
     (case (required ''type'' (arg_solver_type args),
            required ''distance'' (arg_distance args),
            Field ''max_solve_size'' (Some 1) None (arg_max_solve_size args)) of
        (Inr t, Inr d, Inr m) \<Rightarrow> Inr \<lparr>solver_type = t, distance = d, max_solve_size = m\<rparr>
      | (a, b, c) \<Rightarrow> Inl (errors_of a @ errors_of b @ errors_of c))"

subsection \<open>RouteInput\<close>

record RouteInput =
  vehicle_cluster_config :: ClusterConfig
  solver_config :: SolverConfig
  orders :: "OrderInput list"

record RouteInput_args =
  arg_vehicle_cluster_config :: "ClusterConfig_args option"
  arg_solver_config :: "SolverConfig_args option"
  arg_orders :: "OrderInput_args list option"

text \<open>
  The validator \<open>orders_unique\<close>: a loop over the orders with the set of the ids seen
  so far; it raises at the first id seen before, and returns the list otherwise.
\<close>

fun orders_unique_loop :: "int set \<Rightarrow> OrderInput list \<Rightarrow> exn + unit" where
  "orders_unique_loop seen_id [] = Inr ()"
| "orders_unique_loop seen_id (order # v) =
     (if order_id order \<in> seen_id then Inl (ValueError ''order_id must be unique'')
      else orders_unique_loop (insert (order_id order) seen_id) v)"

definition orders_unique :: "OrderInput list \<Rightarrow> exn + OrderInput list" where
  "orders_unique v = (case orders_unique_loop {} v of Inl e \<Rightarrow> Inl e | Inr _ \<Rightarrow> Inr v)"

text \<open>
  A field of type \<open>list[OrderInput]\<close>: every element is validated, and the errors of
  element \<open>i\<close> are reported under index \<open>i\<close>.
\<close>

fun OrderInput_list_validate :: "nat \<Rightarrow> OrderInput_args list \<Rightarrow> error_details list + OrderInput list" where
  "OrderInput_list_validate i [] = Inr []"
| "OrderInput_list_validate i (a # as) =
     (case (OrderInput_validate a, OrderInput_list_validate (Suc i) as) of
        (Inr ord, Inr ords) \<Rightarrow> Inr (ord # ords)
      | (r, rs) \<Rightarrow> Inl (under (Index i) (errors_of r) @ errors_of rs))"

text \<open>
  The field \<open>orders\<close>: required, a list of \<open>OrderInput\<close>, then the field validator
  \<open>orders_unique\<close>, which runs only on a list whose elements all validated; the
  \<open>ValueError\<close> it raises becomes an error detail of the field. The validator raises
  no other exception, so the last case below is never taken.
\<close>

definition orders_field :: "OrderInput_args list option \<Rightarrow> error_details list + OrderInput list" where
  "orders_field arg =
     (case arg of
        None \<Rightarrow> Inl [([], missing)]
      | Some as \<Rightarrow>
          (case OrderInput_list_validate 0 as of
             Inl es \<Rightarrow> Inl es
           | Inr v \<Rightarrow>
               (case orders_unique v of
                  Inr v' \<Rightarrow> Inr v'
                | Inl (ValueError msg) \<Rightarrow> Inl [([], value_error msg)]
                | Inl _ \<Rightarrow> Inl [])))"

text \<open>A required field holding a nested model.\<close>

definition nested :: "('a \<Rightarrow> error_details list + 'b) \<Rightarrow> 'a option \<Rightarrow> error_details list + 'b" where
  "nested validate arg = (case arg of None \<Rightarrow> Inl [([], missing)] | Some a \<Rightarrow> validate a)"

definition RouteInput_validate :: "RouteInput_args \<Rightarrow> exn + RouteInput" where
  "RouteInput_validate args =
     (case (nested ClusterConfig_validate (arg_vehicle_cluster_config args),
            nested SolverConfig_validate (arg_solver_config args),
            orders_field (arg_orders args)) of
        (Inr c, Inr s, Inr v) \<Rightarrow>
          Inr \<lparr>vehicle_cluster_config = c, solver_config = s, orders = v\<rparr>
      | (c, s, v) \<Rightarrow>
          Inl (ValidationError
                 (under (Key ''vehicle_cluster_config'') (errors_of c) @
                  under (Key ''solver_config'') (errors_of s) @
                  under (Key ''orders'') (errors_of v))))"

section \<open>Reading the input files (main.py, visualise\_deliveries.py)\<close>

text \<open>
  A file holds text that is JSON or not. A JSON document is an object, seen through the
  keys that \<open>RouteInput\<close> reads, or a list of routes, or any other value.
\<close>

datatype json_doc = JObject RouteInput_args | JRoutes "int list list" | JOther

datatype file_content = Json json_doc | NotJson

text \<open>
  What a run does, in order: the files it opens, the calls of \<open>equi_rect_project\<close>
  with their arguments, and the warnings that numpy issues.
\<close>

datatype event = Opened string | Projected "float64 list" "float64 list" | Warned string

text \<open>\<open>with open(path) as file: json.load(file)\<close>\<close>

definition open_json_load :: "(string \<rightharpoonup> file_content) \<Rightarrow> string \<Rightarrow> event list \<times> (exn + json_doc)" where
  "open_json_load fs path =
     (case fs path of
        None \<Rightarrow> ([], Inl (FileNotFoundError path))
      | Some NotJson \<Rightarrow> ([Opened path], Inl (JSONDecodeError path))
      | Some (Json doc) \<Rightarrow> ([Opened path], Inr doc))"

text \<open>\<open>RouteInput(**locations)\<close>: the argument must be a mapping.\<close>

definition RouteInput_init :: "json_doc \<Rightarrow> exn + RouteInput" where
  "RouteInput_init locations =
     (case locations of JObject args \<Rightarrow> RouteInput_validate args | _ \<Rightarrow> Inl TypeError)"

text \<open>
  The dictionary comprehension
  \<open>{order.order_id: {'lat': order.lat, 'lon': order.lon} for order in locations.orders}\<close>:
  the entries are stored in the order of the list, a later one replacing an earlier one
  with the same key.
\<close>

definition orders_dict :: "OrderInput list \<Rightarrow> (int \<rightharpoonup> (string \<rightharpoonup> float64))" where
  "orders_dict v =
     fold (\<lambda>order d. d(order_id order \<mapsto> [''lat'' \<mapsto> lat order, ''lon'' \<mapsto> lon order])) v Map.empty"

text \<open>
  The part that \<open>reformat\<close> and \<open>reformat_locations\<close> share, after validation:
  the list comprehensions, the call of \<open>erp.equi_rect_project\<close>, recorded with its
  arguments, and the dictionary of orders. The function \<open>reformat\<close> has the same text in
  main.py and in visualise\_deliveries.py.
\<close>

definition project_orders ::
  "RouteInput \<Rightarrow> event list \<times> (float64 list \<times> float64 list \<times> (int \<rightharpoonup> (string \<rightharpoonup> float64)))" where
  "project_orders locations =
     (let lats = map lat (orders locations);
          longs = map lon (orders locations);
          (lats1, longs1) = equi_rect_project64 lats longs;
          orders1 = orders_dict (orders locations)
      in ([Projected lats longs], (lats1, longs1, orders1)))"

definition reformat ::
  "(string \<rightharpoonup> file_content) \<Rightarrow> string \<Rightarrow> string \<Rightarrow>
     event list \<times> (exn + (float64 list \<times> float64 list \<times> (int \<rightharpoonup> (string \<rightharpoonup> float64)) \<times> json_doc))" where
  "reformat fs locations_path routes_path =
     (case open_json_load fs locations_path of
        (t1, Inl e) \<Rightarrow> (t1, Inl e)
      | (t1, Inr locations) \<Rightarrow>
          (case open_json_load fs routes_path of
             (t2, Inl e) \<Rightarrow> (t1 @ t2, Inl e)
           | (t2, Inr routes) \<Rightarrow>
               (case RouteInput_init locations of
                  Inl e \<Rightarrow> (t1 @ t2, Inl e)
                | Inr locations1 \<Rightarrow>
                    (case project_orders locations1 of
                       (t3, (lats, longs, orders1)) \<Rightarrow>
                         (t1 @ t2 @ t3, Inr (lats, longs, orders1, routes))))))"

definition reformat_locations ::
  "(string \<rightharpoonup> file_content) \<Rightarrow> string \<Rightarrow>
     event list \<times> (exn + (float64 list \<times> float64 list \<times> (int \<rightharpoonup> (string \<rightharpoonup> float64))))" where
  "reformat_locations fs locations_path =
     (case open_json_load fs locations_path of
        (t1, Inl e) \<Rightarrow> (t1, Inl e)
      | (t1, Inr locations) \<Rightarrow>
          (case RouteInput_init locations of
             Inl e \<Rightarrow> (t1, Inl e)
           | Inr locations1 \<Rightarrow>
               (case project_orders locations1 of
                  (t3, (lats, longs, orders1)) \<Rightarrow> (t1 @ t3, Inr (lats, longs, orders1)))))"

section \<open>The projection on objects (er\_projection.py)\<close>

text \<open>
  Python passes references. Here the lists and arrays live in a store, an object's
  address being its position in it. The world also carries the events of the run, so that
  a function that opens a file, or that makes numpy issue a warning, shows it. An address
  without an object does not occur in Python; the operations return \<open>None\<close> there.
\<close>

type_synonym addr = nat

datatype pyobj = PyList "float64 list" | NdArray "float64 list"

record world =
  heap :: "pyobj list"
  events :: "event list"


definition deref :: "addr \<Rightarrow> world \<Rightarrow> pyobj option" where
  "deref a w = (if a < length (heap w) then Some (heap w ! a) else None)"


text \<open>
  \<open>xs.append(v)\<close>, with which \<open>__add_lines\<close> builds the lists that it passes to
  \<open>equi_rect_project\<close>: the list is changed in place. An array has no \<open>append\<close>.
\<close>

definition list_append :: "addr \<Rightarrow> float64 \<Rightarrow> world \<Rightarrow> world option" where
  "list_append a v w =
     (case deref a w of
        Some (PyList xs) \<Rightarrow> Some (w\<lparr>heap := (heap w)[a := PyList (xs @ [v])]\<rparr>)
      | _ \<Rightarrow> None)"















section \<open>Example inputs\<close>

text \<open>Arguments of an order and of a route input, used to run the models.\<close>

definition order_args :: "int \<Rightarrow> real \<Rightarrow> real \<Rightarrow> OrderInput_args" where
  "order_args i la lo =
     \<lparr>arg_order_id = Some i, arg_lat = Some (Finite la), arg_lon = Some (Finite lo)\<rparr>"

definition route_args :: "int \<Rightarrow> OrderInput_args list \<Rightarrow> RouteInput_args" where
  "route_args m as =
     \<lparr>arg_vehicle_cluster_config = Some \<lparr>arg_cluster_type = Some ''kmeans'', arg_cluster_extra = []\<rparr>,
      arg_solver_config =
        Some \<lparr>arg_solver_type = Some ''brute'', arg_distance = Some ''cartesian'',
              arg_max_solve_size = Some m\<rparr>,
      arg_orders = Some as\<rparr>"

text \<open>The two input files of a run.\<close>

definition example_files :: "OrderInput_args list \<Rightarrow> (string \<rightharpoonup> file_content)" where
  "example_files as =
     [''data/Locations.json'' \<mapsto> Json (JObject (route_args 5 as)),
      ''data/Locations_route.json'' \<mapsto> Json (JRoutes [[16, 17]])]"

section \<open>Properties of the validation\<close>

subsection \<open>Fields and orders\<close>

lemma Field_Inr_iff:
  "Field name ge le arg = Inr v \<longleftrightarrow>
     arg = Some v \<and> (case ge of None \<Rightarrow> True | Some a \<Rightarrow> a \<le> v) \<and> (case le of None \<Rightarrow> True | Some b \<Rightarrow> v \<le> b)"
  by (cases arg) (auto split: option.splits)

lemma Field_Inl_not_Nil: "Field name ge le arg = Inl es \<Longrightarrow> es \<noteq> []"
  by (cases arg) (auto split: option.splits if_splits)

lemma required_Inr_iff: "required name arg = Inr v \<longleftrightarrow> arg = Some v"
  by (cases arg) auto

lemma in_range_iff:
  "\<not> less64 v (Finite lo) \<and> \<not> less64 (Finite hi) v \<longleftrightarrow> v = NaN \<or> in_range lo hi v"
  by (cases v) auto

lemma Field_float_Inr_iff:
  "Field_float name (Some (Finite lo)) (Some (Finite hi)) arg = Inr v \<longleftrightarrow>
     arg = Some v \<and> (v = NaN \<or> in_range lo hi v)"
  using in_range_iff [of v lo hi] by (cases arg) auto

lemma Field_float_Inl_not_Nil: "Field_float name ge le arg = Inl es \<Longrightarrow> es \<noteq> []"
  by (cases arg) (auto split: option.splits if_splits)

lemma Field_float_error:
  assumes "v \<noteq> NaN" and "\<not> in_range lo hi v"
  shows "Field_float name (Some (Finite lo)) (Some (Finite hi)) (Some v) = Inl [([Key name], greater_than_equal)] \<or>
         Field_float name (Some (Finite lo)) (Some (Finite hi)) (Some v) = Inl [([Key name], less_than_equal)]"
  using assms in_range_iff [of v lo hi] by auto

lemma OrderInput_validate_Inr_iff:
  "OrderInput_validate args = Inr ord \<longleftrightarrow>
     arg_order_id args = Some (order_id ord) \<and> arg_lat args = Some (lat ord) \<and>
     arg_lon args = Some (lon ord) \<and> 0 \<le> order_id ord \<and>
     (lat ord = NaN \<or> in_range (- 90) 90 (lat ord)) \<and>
     (lon ord = NaN \<or> in_range (- 180) 180 (lon ord))"
proof -
  have "OrderInput_validate args = Inr ord \<longleftrightarrow>
      Field ''order_id'' (Some 0) None (arg_order_id args) = Inr (order_id ord) \<and>
      Field_float ''lat'' (Some (Finite (- 90))) (Some (Finite 90)) (arg_lat args) = Inr (lat ord) \<and>
      Field_float ''lon'' (Some (Finite (- 180))) (Some (Finite 180)) (arg_lon args) = Inr (lon ord)"
    by (cases ord)
      (auto simp: OrderInput_validate_def split: sum.splits simp del: Field.simps Field_float.simps)
  then show ?thesis
    by (auto simp: Field_Inr_iff Field_float_Inr_iff simp del: Field.simps Field_float.simps)
qed

lemma OrderInput_validate_Inl_not_Nil: "OrderInput_validate args = Inl es \<Longrightarrow> es \<noteq> []"
  by (auto simp: OrderInput_validate_def split: sum.splits
      dest: Field_Inl_not_Nil Field_float_Inl_not_Nil)

lemma lat_error:
  assumes "arg_lat args = Some la" and "la \<noteq> NaN" and "\<not> in_range (- 90) 90 la"
  shows "\<exists>es. OrderInput_validate args = Inl es \<and>
       (([Key ''lat''], greater_than_equal) \<in> set es \<or> ([Key ''lat''], less_than_equal) \<in> set es)"
proof -
  obtain t where "Field_float ''lat'' (Some (Finite (- 90))) (Some (Finite 90)) (arg_lat args) =
      Inl [([Key ''lat''], t)]" and "t = greater_than_equal \<or> t = less_than_equal"
    using Field_float_error [OF assms(2,3), of "''lat''"] assms(1) by auto
  then show ?thesis
    by (auto simp: OrderInput_validate_def split: sum.splits simp del: Field_float.simps)
qed

lemma lon_error:
  assumes "arg_lon args = Some lo" and "lo \<noteq> NaN" and "\<not> in_range (- 180) 180 lo"
  shows "\<exists>es. OrderInput_validate args = Inl es \<and>
       (([Key ''lon''], greater_than_equal) \<in> set es \<or> ([Key ''lon''], less_than_equal) \<in> set es)"
proof -
  obtain t where "Field_float ''lon'' (Some (Finite (- 180))) (Some (Finite 180)) (arg_lon args) =
      Inl [([Key ''lon''], t)]" and "t = greater_than_equal \<or> t = less_than_equal"
    using Field_float_error [OF assms(2,3), of "''lon''"] assms(1) by auto
  then show ?thesis
    by (auto simp: OrderInput_validate_def split: sum.splits simp del: Field_float.simps)
qed

lemma order_id_error:
  "arg_order_id args = Some i \<Longrightarrow> i < 0 \<Longrightarrow>
     \<exists>es. OrderInput_validate args = Inl es \<and> ([Key ''order_id''], greater_than_equal) \<in> set es"
  by (auto simp: OrderInput_validate_def split: sum.splits)

subsection \<open>The list of orders and the route input\<close>

lemma orders_unique_loop_eq:
  "orders_unique_loop seen v =
     (if distinct (map order_id v) \<and> order_id ` set v \<inter> seen = {} then Inr ()
      else Inl (ValueError ''order_id must be unique''))"
  by (induction v arbitrary: seen) auto

lemma orders_unique_eq:
  "orders_unique v =
     (if distinct (map order_id v) then Inr v else Inl (ValueError ''order_id must be unique''))"
  by (simp add: orders_unique_def orders_unique_loop_eq)

lemma OrderInput_list_validate_Inr_iff:
  "OrderInput_list_validate i as = Inr v \<longleftrightarrow> map OrderInput_validate as = map Inr v"
proof (induction as arbitrary: i v)
  case Nil
  then show ?case by auto
next
  case (Cons a as)
  show ?case
  proof (cases v)
    case Nil
    then show ?thesis by (simp split: sum.splits)
  next
    case (Cons ord ords)
    then show ?thesis
      using Cons.IH [of "Suc i" ords]
      by (cases "OrderInput_validate a"; cases "OrderInput_list_validate (Suc i) as") auto
  qed
qed

lemma under_Nil_iff: "under l es = [] \<longleftrightarrow> es = []"
  by (simp add: under_def)

lemma OrderInput_list_validate_Inl_not_Nil:
  "OrderInput_list_validate i as = Inl es \<Longrightarrow> es \<noteq> []"
proof (induction as arbitrary: i es)
  case Nil
  then show ?case by simp
next
  case (Cons a as)
  then show ?case
    by (auto simp: under_Nil_iff split: sum.splits dest: OrderInput_validate_Inl_not_Nil)
qed

lemma orders_field_Inr_iff:
  "orders_field arg = Inr v \<longleftrightarrow>
     (\<exists>as. arg = Some as \<and> map OrderInput_validate as = map Inr v \<and> distinct (map order_id v))"
proof (cases arg)
  case None
  then show ?thesis by (simp add: orders_field_def)
next
  case (Some as)
  show ?thesis
  proof (cases "OrderInput_list_validate 0 as")
    case (Inl es)
    then have "map OrderInput_validate as \<noteq> map Inr v"
      using OrderInput_list_validate_Inr_iff [of 0 as v] by simp
    with Some Inl show ?thesis by (simp add: orders_field_def)
  next
    case (Inr v')
    then have v': "map OrderInput_validate as = map Inr v'"
      by (simp add: OrderInput_list_validate_Inr_iff)
    have "map OrderInput_validate as = map Inr v \<longleftrightarrow> v' = v"
      using v' by (auto simp: inj_map_eq_map [of Inr, simplified])
    with Some Inr show ?thesis
      by (auto simp: orders_field_def orders_unique_eq)
  qed
qed

lemma orders_field_Inl_not_Nil: "orders_field arg = Inl es \<Longrightarrow> es \<noteq> []"
  by (auto simp: orders_field_def orders_unique_eq
      split: option.splits sum.splits exn.splits if_splits dest: OrderInput_list_validate_Inl_not_Nil)

lemma RouteInput_validate_Inr_iff:
  "RouteInput_validate args = Inr r \<longleftrightarrow>
     nested ClusterConfig_validate (arg_vehicle_cluster_config args) = Inr (vehicle_cluster_config r) \<and>
     nested SolverConfig_validate (arg_solver_config args) = Inr (solver_config r) \<and>
     orders_field (arg_orders args) = Inr (orders r)"
  by (cases r) (auto simp: RouteInput_validate_def split: sum.splits)

lemma RouteInput_validate_orders_error:
  "orders_field (arg_orders args) = Inl es \<Longrightarrow>
     \<exists>es'. RouteInput_validate args = Inl (ValidationError es') \<and>
       set (under (Key ''orders'') es) \<subseteq> set es'"
  by (auto simp: RouteInput_validate_def split: sum.splits)

lemma orders_field_element_error:
  assumes "a \<in> set as" and "OrderInput_validate a = Inl e"
  shows "\<exists>es. orders_field (Some as) = Inl es \<and> es \<noteq> []"
proof (cases "orders_field (Some as)")
  case (Inl es)
  then show ?thesis by (simp add: orders_field_Inl_not_Nil)
next
  case (Inr v)
  then have "map OrderInput_validate as = map Inr v"
    by (simp add: orders_field_Inr_iff)
  then have "OrderInput_validate a \<in> set (map Inr v)"
    using assms(1) by (metis image_eqI set_map)
  with assms(2) show ?thesis by auto
qed

lemma RouteInput_validate_element_error:
  assumes "arg_orders args = Some as" and "a \<in> set as" and "OrderInput_validate a = Inl e"
  shows "\<exists>es. RouteInput_validate args = Inl (ValidationError es) \<and> es \<noteq> []"
proof -
  obtain es where es: "orders_field (arg_orders args) = Inl es" "es \<noteq> []"
    using orders_field_element_error [OF assms(2,3)] assms(1) by auto
  then obtain es' where "RouteInput_validate args = Inl (ValidationError es')"
      "set (under (Key ''orders'') es) \<subseteq> set es'"
    using RouteInput_validate_orders_error by blast
  moreover have "under (Key ''orders'') es \<noteq> []"
    using es(2) by (simp add: under_Nil_iff)
  ultimately show ?thesis by auto
qed

lemma validated_order_ids:
  "map OrderInput_validate as = map Inr v \<Longrightarrow> map arg_order_id as = map (\<lambda>ord. Some (order_id ord)) v"
proof (induction as arbitrary: v)
  case Nil
  then show ?case by simp
next
  case (Cons a as)
  then show ?case
    by (cases v) (auto simp: OrderInput_validate_Inr_iff)
qed


lemma orders_field_duplicate_error:
  assumes "\<not> distinct (map arg_order_id as)"
  shows "\<exists>es. orders_field (Some as) = Inl es \<and> es \<noteq> []"
proof (cases "orders_field (Some as)")
  case (Inl es)
  then show ?thesis by (simp add: orders_field_Inl_not_Nil)
next
  case (Inr v)
  then have v: "map OrderInput_validate as = map Inr v" "distinct (map order_id v)"
    by (simp_all add: orders_field_Inr_iff)
  have "map arg_order_id as = map Some (map order_id v)"
    using validated_order_ids [OF v(1)] by simp
  moreover have "distinct (map Some ids)" if "distinct ids" for ids :: "int list"
    using that by (simp add: distinct_map)
  then have "distinct (map Some (map order_id v))"
    using v(2) by blast
  ultimately show ?thesis
    using assms by simp
qed

lemma RouteInput_validate_distinct:
  "RouteInput_validate args = Inr locations \<Longrightarrow> distinct (map order_id (orders locations))"
  by (auto simp: RouteInput_validate_Inr_iff orders_field_Inr_iff)


lemma RouteInput_validate_violation:
  assumes "arg_orders args = Some as"
    and "\<not> distinct (map arg_order_id as) \<or>
         (\<exists>a \<in> set as. \<exists>x. arg_lat a = Some x \<and> x \<noteq> NaN \<and> \<not> in_range (- 90) 90 x) \<or>
         (\<exists>a \<in> set as. \<exists>x. arg_lon a = Some x \<and> x \<noteq> NaN \<and> \<not> in_range (- 180) 180 x)"
  shows "\<exists>es. RouteInput_validate args = Inl (ValidationError es) \<and> es \<noteq> []"
proof -
  consider (ids) "\<not> distinct (map arg_order_id as)"
    | (lat) a x where "a \<in> set as" "arg_lat a = Some x" "x \<noteq> NaN" "\<not> in_range (- 90) 90 x"
    | (lon) a x where "a \<in> set as" "arg_lon a = Some x" "x \<noteq> NaN" "\<not> in_range (- 180) 180 x"
    using assms(2) by blast
  then have "\<exists>es. orders_field (arg_orders args) = Inl es \<and> es \<noteq> []"
  proof cases
    case ids
    then show ?thesis
      using orders_field_duplicate_error assms(1) by simp
  next
    case lat
    then show ?thesis
      using lat_error [of a x] orders_field_element_error [of a as] assms(1) by auto
  next
    case lon
    then show ?thesis
      using lon_error [of a x] orders_field_element_error [of a as] assms(1) by auto
  qed
  then obtain es where es: "orders_field (arg_orders args) = Inl es" "es \<noteq> []"
    by blast
  then obtain es' where "RouteInput_validate args = Inl (ValidationError es')"
      "set (under (Key ''orders'') es) \<subseteq> set es'"
    using RouteInput_validate_orders_error by blast
  moreover have "under (Key ''orders'') es \<noteq> []"
    using es(2) by (simp add: under_Nil_iff)
  ultimately show ?thesis by auto
qed

subsection \<open>The solver configuration\<close>

lemma max_solve_size_error:
  "arg_max_solve_size args = Some m \<Longrightarrow> m < 1 \<Longrightarrow>
     \<exists>es. SolverConfig_validate args = Inl es \<and> ([Key ''max_solve_size''], greater_than_equal) \<in> set es"
  by (auto simp: SolverConfig_validate_def split: sum.splits)

lemma SolverConfig_validate_Inr_iff:
  "SolverConfig_validate args = Inr c \<longleftrightarrow>
     arg_solver_type args = Some (solver_type c) \<and> arg_distance args = Some (distance c) \<and>
     arg_max_solve_size args = Some (max_solve_size c) \<and> 1 \<le> max_solve_size c"
  by (cases c) (auto simp: SolverConfig_validate_def Field_Inr_iff required_Inr_iff split: sum.splits)

section \<open>Properties of reformat\<close>

subsection \<open>The dictionary of orders\<close>

lemma orders_fold_dom:
  "dom (fold (\<lambda>order d. d(order_id order \<mapsto> g order)) v m) = dom m \<union> order_id ` set v"
  by (induction v arbitrary: m) auto

lemma orders_fold_outside:
  "k \<notin> order_id ` set v \<Longrightarrow> fold (\<lambda>order d. d(order_id order \<mapsto> g order)) v m k = m k"
  by (induction v arbitrary: m) auto

lemma orders_fold_lookup:
  "distinct (map order_id v) \<Longrightarrow> order \<in> set v \<Longrightarrow>
     fold (\<lambda>order d. d(order_id order \<mapsto> g order)) v m (order_id order) = Some (g order)"
proof (induction v arbitrary: m)
  case Nil
  then show ?case by simp
next
  case (Cons x v)
  show ?case
  proof (cases "order = x")
    case True
    have "order_id x \<notin> order_id ` set v"
      using Cons.prems(1) by auto
    then have "fold (\<lambda>order d. d(order_id order \<mapsto> g order)) v (m(order_id x \<mapsto> g x)) (order_id x) =
        (m(order_id x \<mapsto> g x)) (order_id x)"
      by (rule orders_fold_outside)
    also have "\<dots> = Some (g x)"
      by simp
    finally show ?thesis
      using True by (simp del: fun_upd_apply)
  next
    case False
    then show ?thesis
      using Cons by auto
  qed
qed

lemma orders_dict_dom: "dom (orders_dict v) = order_id ` set v"
  by (simp add: orders_dict_def orders_fold_dom)

lemma orders_dict_card: "distinct (map order_id v) \<Longrightarrow> card (dom (orders_dict v)) = length v"
  using distinct_card [of "map order_id v"] by (simp add: orders_dict_dom)

lemma orders_dict_lookup:
  "distinct (map order_id v) \<Longrightarrow> order \<in> set v \<Longrightarrow>
     orders_dict v (order_id order) = Some [''lat'' \<mapsto> lat order, ''lon'' \<mapsto> lon order]"
  by (simp add: orders_dict_def orders_fold_lookup)

subsection \<open>The runs of reformat\<close>

lemma reformat_valid:
  assumes "fs locations_path = Some (Json (JObject args))" and "fs routes_path = Some (Json routes)"
    and "RouteInput_validate args = Inr locations"
  shows "reformat fs locations_path routes_path =
     ([Opened locations_path, Opened routes_path,
       Projected (map lat (orders locations)) (map lon (orders locations))],
      Inr (fst (equi_rect_project64 (map lat (orders locations)) (map lon (orders locations))),
           snd (equi_rect_project64 (map lat (orders locations)) (map lon (orders locations))),
           orders_dict (orders locations), routes))"
  using assms
  by (simp add: reformat_def open_json_load_def RouteInput_init_def project_orders_def Let_def
      split: prod.splits)

lemma reformat_locations_valid:
  assumes "fs locations_path = Some (Json (JObject args))"
    and "RouteInput_validate args = Inr locations"
  shows "reformat_locations fs locations_path =
     ([Opened locations_path,
       Projected (map lat (orders locations)) (map lon (orders locations))],
      Inr (fst (equi_rect_project64 (map lat (orders locations)) (map lon (orders locations))),
           snd (equi_rect_project64 (map lat (orders locations)) (map lon (orders locations))),
           orders_dict (orders locations)))"
  using assms
  by (simp add: reformat_locations_def open_json_load_def RouteInput_init_def project_orders_def Let_def
      split: prod.splits)



section \<open>Properties of float64 arithmetic\<close>

subsection \<open>Evaluating a rounding\<close>

text \<open>
  A rounding is evaluated from the binary exponent of the number and the integer that
  its scaled value rounds to.
\<close>

lemma exponent64_eqI:
  assumes "2 powi k \<le> \<bar>x\<bar>" and "\<bar>x\<bar> < 2 powi (k + 1)" and "- 1022 \<le> k"
  shows "exponent64 x = k"
proof -
  have pos: "0 < \<bar>x\<bar>"
  proof -
    have "(0::real) < 2 powi k"
      by simp
    then show ?thesis
      using assms(1) by linarith
  qed
  have a: "2 powr real_of_int k = (2::real) powi k"
    by (simp add: powr_real_of_int')
  have b: "2 powr (real_of_int k + 1) = (2::real) powi (k + 1)"
    using powr_real_of_int' [of 2 "k + 1"] by simp
  have "2 powr real_of_int k \<le> \<bar>x\<bar>" and "\<bar>x\<bar> < 2 powr (real_of_int k + 1)"
    using assms(1,2) by (simp_all only: a b)
  then have "\<lfloor>log 2 \<bar>x\<bar>\<rfloor> = k"
    using pos floor_log_eq_powr_iff [of "\<bar>x\<bar>" 2 k] by simp
  then show ?thesis
    using assms(3) by (simp add: exponent64_def)
qed

lemma to_float64_eqI:
  assumes "2 powi k \<le> \<bar>x\<bar>" and "\<bar>x\<bar> < 2 powi (k + 1)" and "- 1022 \<le> k" and "k < 1023"
    and "round_half_even (x / 2 powi (k - 52)) = m"
  shows "to_float64 x = Finite (of_int m * 2 powi (k - 52))"
proof -
  have "(0::real) < 2 powi k"
    by simp
  then have "0 < \<bar>x\<bar>"
    using assms(1) by linarith
  then have "x \<noteq> 0"
    by simp
  then have r: "round64 x = of_int m * 2 powi (k - 52)"
    using exponent64_eqI [OF assms(1-3)] assms(5) by (simp add: round64_def)
  have "(2::real) powi (k + 1) \<le> 2 powi 1023"
    using assms(4) by (intro power_int_increasing) simp_all
  also have "\<dots> < 2 ^ 1024 - 2 ^ 970"
    by simp
  finally have "\<bar>x\<bar> < 2 ^ 1024 - 2 ^ 970"
    using assms(2) by simp
  then show ?thesis
    using r by (simp add: to_float64_def)
qed

subsection \<open>The rounding error\<close>

text \<open>
  Rounding moves a number by at most half a unit in the last place: by a relative error
  of at most \<open>1 / 2 ^ 53\<close>, or in the subnormal range by at most \<open>2 powi (- 1075)\<close>.
\<close>

lemma round_half_even_error: "\<bar>of_int (round_half_even y) - y\<bar> \<le> 1 / 2"
proof -
  have "of_int \<lfloor>y\<rfloor> \<le> y" and "y < of_int \<lfloor>y\<rfloor> + 1"
    by linarith+
  then show ?thesis
    by (auto simp: round_half_even_def Let_def)
qed

lemma round64_error_ulp:
  "\<bar>round64 x - x\<bar> \<le> 2 powi (exponent64 x - 53)"
proof (cases "x = 0")
  case True
  then show ?thesis by (simp add: round64_def)
next
  case False
  let ?q = "(2::real) powi (exponent64 x - 52)"
  have q: "0 < ?q" by simp
  have "round64 x - x = (of_int (round_half_even (x / ?q)) - x / ?q) * ?q"
    using False q by (simp add: round64_def field_simps)
  then have "\<bar>round64 x - x\<bar> = \<bar>of_int (round_half_even (x / ?q)) - x / ?q\<bar> * ?q"
    using q by (simp add: abs_mult)
  also have "\<dots> \<le> 1 / 2 * ?q"
    using round_half_even_error [of "x / ?q"] q by (intro mult_right_mono) simp_all
  also have "\<dots> = 2 powi (exponent64 x - 53)"
    by (simp add: power_int_diff)
  finally show ?thesis .
qed

lemma exponent64_le:
  assumes "x \<noteq> 0"
  shows "2 powi (exponent64 x) \<le> max \<bar>x\<bar> (2 powi (- 1022))"
proof (cases "\<lfloor>log 2 \<bar>x\<bar>\<rfloor> \<le> - 1022")
  case True
  then show ?thesis by (simp add: exponent64_def max_def)
next
  case False
  then have e: "exponent64 x = \<lfloor>log 2 \<bar>x\<bar>\<rfloor>"
    by (simp add: exponent64_def)
  have "2 powr real_of_int \<lfloor>log 2 \<bar>x\<bar>\<rfloor> \<le> \<bar>x\<bar>"
    using assms floor_log_eq_powr_iff [of "\<bar>x\<bar>" 2 "\<lfloor>log 2 \<bar>x\<bar>\<rfloor>"] by simp
  then have "2 powi \<lfloor>log 2 \<bar>x\<bar>\<rfloor> \<le> \<bar>x\<bar>"
    by (simp add: powr_real_of_int')
  then show ?thesis
    using e by simp
qed

lemma round64_error: "\<bar>round64 x - x\<bar> \<le> \<bar>x\<bar> / 2 ^ 53 + 2 powi (- 1075)"
proof (cases "x = 0")
  case True
  then show ?thesis by (simp add: round64_def)
next
  case False
  have "\<bar>round64 x - x\<bar> \<le> 2 powi (exponent64 x - 53)"
    by (rule round64_error_ulp)
  also have "\<dots> = 2 powi (exponent64 x) / 2 ^ 53"
    by (simp add: power_int_diff)
  also have "\<dots> \<le> max \<bar>x\<bar> (2 powi (- 1022)) / 2 ^ 53"
    using exponent64_le [OF False] by (simp add: divide_right_mono)
  also have "\<dots> \<le> \<bar>x\<bar> / 2 ^ 53 + 2 powi (- 1022) / 2 ^ 53"
    by (simp add: max_def add_divide_distrib [symmetric] divide_right_mono)
  also have "2 powi (- 1022) / 2 ^ 53 = (2::real) powi (- 1075)"
    by (simp add: power_int_minus field_simps flip: power_add)
  finally show ?thesis .
qed


lemma to_float64_error:
  assumes "\<bar>x\<bar> \<le> 1000000"
  shows "\<exists>y. to_float64 x = Finite y \<and>
           \<bar>y - x\<bar> \<le> \<bar>x\<bar> / 9007199254740992 + 1 / 100000000000000000000"
proof -
  have "(1000000::real) < 2 ^ 1024 - 2 ^ 970"
    by simp
  then have "to_float64 x = Finite (round64 x)"
    using assms by (simp add: to_float64_def)
  moreover have "(2::real) powi (- 1075) \<le> 1 / 100000000000000000000"
    by (simp add: power_int_minus field_simps)
  moreover have "\<bar>x\<bar> / 2 ^ 53 = \<bar>x\<bar> / 9007199254740992"
    by simp
  ultimately show ?thesis
    using round64_error [of x] by (intro exI [of _ "round64 x"]) linarith
qed

lemma fsub_error:
  assumes "\<bar>x\<bar> \<le> 30000" and "\<bar>y\<bar> \<le> 30000"
  shows "\<exists>d. fsub (Finite x) (Finite y) = Finite d \<and> \<bar>d - (x - y)\<bar> \<le> 1 / 100000000000"
proof -
  define z where "z = x - y"
  have z: "\<bar>z\<bar> \<le> 60000"
    using assms unfolding z_def by linarith
  then have "\<bar>z\<bar> \<le> 1000000"
    by linarith
  then obtain d where d: "to_float64 z = Finite d"
      "\<bar>d - z\<bar> \<le> \<bar>z\<bar> / 9007199254740992 + 1 / 100000000000000000000"
    using to_float64_error [of z] by auto
  have "\<bar>d - z\<bar> \<le> 1 / 100000000000"
    using d(2) z by linarith
  then show ?thesis
    using d(1) unfolding z_def by simp
qed

section \<open>Properties of the projection\<close>

subsection \<open>The two arrays, element by element\<close>

lemma equi_rect_project64_latitudes:
  "fst (equi_rect_project64 lats lons) = map (\<lambda>lat. fmul (Finite 6371) (radians64 lat)) lats"
  by (simp add: equi_rect_project64_def np_array64_def np_radians64_def scalar_times_array64_def Let_def)

lemma equi_rect_project_latitudes:
  "fst (equi_rect_project lats lons) = map (\<lambda>lat. 6371 * radians lat) lats"
  by (simp add: equi_rect_project_def np_array_def np_radians_def scalar_times_array_def)

lemma equi_rect_project_longitudes:
  "snd (equi_rect_project lats lons) =
     map (\<lambda>lon. 6371 * radians lon * cos (radians (- 31.952258602714696))) lons"
  by (simp add: equi_rect_project_def np_array_def np_radians_def np_cos_def
      scalar_times_array_def array_times_scalar_def)

lemma equi_rect_project64_longitudes:
  "snd (equi_rect_project64 lats lons) =
     map (\<lambda>lon. fmul (fmul (Finite 6371) (radians64 lon))
                  (np_cos64 (radians64 (to_float64 (- 31.952258602714696))))) lons"
  by (simp add: equi_rect_project64_def np_array64_def np_radians64_def scalar_times_array64_def
      array_times_scalar64_def Let_def)

subsection \<open>The projection of the latitudes -5, -4 and -3 in float64 arithmetic\<close>

text \<open>
  The products of \<open>np.radians\<close> and of \<open>r * latitudes_radians\<close> for the three
  latitudes, and the differences of the degrees and of the projected values.
\<close>

lemma radians64_m5: "radians64 (Finite (- 5)) = Finite (- 6288211335136391 / 2 ^ 56)"
  using to_float64_eqI [of "- 4" "- 5 * (5030569068109113 / 2 ^ 58)" "- 6288211335136391"]
  by (simp add: radians64_def deg2rad64_def power_int_minus round_half_even_def Let_def)

lemma radians64_m4: "radians64 (Finite (- 4)) = Finite (- 5030569068109113 / 2 ^ 56)"
  using to_float64_eqI [of "- 4" "- 4 * (5030569068109113 / 2 ^ 58)" "- 5030569068109113"]
  by (simp add: radians64_def deg2rad64_def power_int_minus round_half_even_def Let_def)

lemma radians64_m3: "radians64 (Finite (- 3)) = Finite (- 7545853602163670 / 2 ^ 57)"
  using to_float64_eqI [of "- 5" "- 3 * (5030569068109113 / 2 ^ 58)" "- 7545853602163670"]
  by (simp add: radians64_def deg2rad64_def power_int_minus round_half_even_def Let_def)

lemma scaled_m5: "fmul (Finite 6371) (Finite (- 6288211335136391 / 2 ^ 56)) = Finite (- 4890404591815667 / 2 ^ 43)"
  using to_float64_eqI [of "9" "6371 * (- 6288211335136391 / 2 ^ 56)" "- 4890404591815667"]
  by (simp add: radians64_def deg2rad64_def power_int_minus round_half_even_def Let_def)

lemma scaled_m4: "fmul (Finite 6371) (Finite (- 5030569068109113 / 2 ^ 56)) = Finite (- 7824647346905068 / 2 ^ 44)"
  using to_float64_eqI [of "8" "6371 * (- 5030569068109113 / 2 ^ 56)" "- 7824647346905068"]
  by (simp add: radians64_def deg2rad64_def power_int_minus round_half_even_def Let_def)

lemma scaled_m3: "fmul (Finite 6371) (Finite (- 7545853602163670 / 2 ^ 57)) = Finite (- 5868485510178801 / 2 ^ 44)"
  using to_float64_eqI [of "8" "6371 * (- 7545853602163670 / 2 ^ 57)" "- 5868485510178801"]
  by (simp add: radians64_def deg2rad64_def power_int_minus round_half_even_def Let_def)

lemma step_degrees_1: "fsub (Finite (- 4)) (Finite (- 5)) = Finite 1"
  using to_float64_eqI [of "0" "- 4 - (- 5)" "4503599627370496"]
  by (simp add: radians64_def deg2rad64_def power_int_minus round_half_even_def Let_def)

lemma step_degrees_2: "fsub (Finite (- 3)) (Finite (- 4)) = Finite 1"
  using to_float64_eqI [of "0" "- 3 - (- 4)" "4503599627370496"]
  by (simp add: radians64_def deg2rad64_def power_int_minus round_half_even_def Let_def)

lemma step_km_1: "fsub (Finite (- 7824647346905068 / 2 ^ 44)) (Finite (- 4890404591815667 / 2 ^ 43)) = Finite (7824647346905064 / 2 ^ 46)"
  using to_float64_eqI [of "6" "- 7824647346905068 / 2 ^ 44 - (- 4890404591815667 / 2 ^ 43)" "7824647346905064"]
  by (simp add: radians64_def deg2rad64_def power_int_minus round_half_even_def Let_def)

lemma step_km_2: "fsub (Finite (- 5868485510178801 / 2 ^ 44)) (Finite (- 7824647346905068 / 2 ^ 44)) = Finite (7824647346905068 / 2 ^ 46)"
  using to_float64_eqI [of "6" "- 5868485510178801 / 2 ^ 44 - (- 7824647346905068 / 2 ^ 44)" "7824647346905068"]
  by (simp add: radians64_def deg2rad64_def power_int_minus round_half_even_def Let_def)

subsection \<open>The error of the projection in float64 arithmetic\<close>

text \<open>
  For coordinates of magnitude at most 180 every operation of the projection gives a
  finite value, close to the exact one.
\<close>

lemma radians64_finite:
  assumes "\<bar>a\<bar> \<le> 180"
  shows "\<exists>r. radians64 (Finite a) = Finite r \<and> \<bar>r\<bar> \<le> 4"
proof -
  define D :: real where "D = 5030569068109113 / 2 ^ 58"
  have D: "0 < D" "D \<le> 17454 / 1000000"
    by (simp_all add: D_def)
  have x1: "\<bar>a * D\<bar> \<le> 315 / 100"
  proof -
    have "\<bar>a * D\<bar> = \<bar>a\<bar> * D"
      using D(1) by (simp add: abs_mult)
    also have "\<dots> \<le> 180 * (17454 / 1000000)"
      using assms D by (intro mult_mono) simp_all
    finally show ?thesis by simp
  qed
  obtain r where r: "to_float64 (a * D) = Finite r"
      "\<bar>r - a * D\<bar> \<le> \<bar>a * D\<bar> / 9007199254740992 + 1 / 100000000000000000000"
    using to_float64_error [of "a * D"] x1 by auto
  have "\<bar>r\<bar> \<le> 4"
    using r(2) x1 by linarith
  moreover have "radians64 (Finite a) = Finite r"
    using r(1) by (simp add: radians64_def deg2rad64_def D_def)
  ultimately show ?thesis by blast
qed

lemma projected_latitude_error:
  assumes "\<bar>a\<bar> \<le> 180"
  shows "\<exists>p. fmul (Finite 6371) (radians64 (Finite a)) = Finite p \<and>
           \<bar>p - 6371 * (5030569068109113 / 2 ^ 58) * a\<bar> \<le> 5 / 1000000000000"
proof -
  define D :: real where "D = 5030569068109113 / 2 ^ 58"
  have D: "0 < D" "D \<le> 17454 / 1000000"
    by (simp_all add: D_def)
  have x1: "\<bar>a * D\<bar> \<le> 315 / 100"
  proof -
    have "\<bar>a * D\<bar> = \<bar>a\<bar> * D"
      using D(1) by (simp add: abs_mult)
    also have "\<dots> \<le> 180 * (17454 / 1000000)"
      using assms D by (intro mult_mono) simp_all
    finally show ?thesis by simp
  qed
  obtain r where r: "to_float64 (a * D) = Finite r"
      "\<bar>r - a * D\<bar> \<le> \<bar>a * D\<bar> / 9007199254740992 + 1 / 100000000000000000000"
    using to_float64_error [of "a * D"] x1 by auto
  have r1: "\<bar>r - a * D\<bar> \<le> 35 / 100000000000000000"
    using r(2) x1 by linarith
  have x2: "\<bar>6371 * r\<bar> \<le> 20133"
    using r1 x1 by linarith
  obtain p where p: "to_float64 (6371 * r) = Finite p"
      "\<bar>p - 6371 * r\<bar> \<le> \<bar>6371 * r\<bar> / 9007199254740992 + 1 / 100000000000000000000"
    using to_float64_error [of "6371 * r"] x2 by auto
  have "\<bar>p - 6371 * (a * D)\<bar> \<le> 5 / 1000000000000"
    using p(2) x2 r1 by linarith
  moreover have "6371 * (a * D) = 6371 * D * a"
    by simp
  moreover have "fmul (Finite 6371) (radians64 (Finite a)) = Finite p"
    using r(1) p(1) by (simp add: radians64_def deg2rad64_def D_def)
  ultimately show ?thesis
    unfolding D_def by auto
qed

lemma centre_values:
  "\<exists>c0 c1 k. to_float64 (- 31.952258602714696) = Finite c0 \<and> radians64 (Finite c0) = Finite c1 \<and>
     np_cos64 (Finite c1) = Finite k \<and> \<bar>k\<bar> \<le> 10001 / 10000"
proof -
  define c :: real where "c = - 31.952258602714696"
  have c: "\<bar>c\<bar> \<le> 32"
    by (simp add: c_def)
  obtain c0 where c0: "to_float64 c = Finite c0"
      "\<bar>c0 - c\<bar> \<le> \<bar>c\<bar> / 9007199254740992 + 1 / 100000000000000000000"
    using to_float64_error [of c] c by auto
  have "\<bar>c0\<bar> \<le> 180"
    using c0(2) c by linarith
  then obtain c1 where c1: "radians64 (Finite c0) = Finite c1"
    using radians64_finite by blast
  have cos: "\<bar>cos c1\<bar> \<le> 1"
    by (rule abs_cos_le_one)
  then have "\<bar>cos c1\<bar> \<le> 1000000"
    by linarith
  then obtain k where k: "to_float64 (cos c1) = Finite k"
      "\<bar>k - cos c1\<bar> \<le> \<bar>cos c1\<bar> / 9007199254740992 + 1 / 100000000000000000000"
    using to_float64_error [of "cos c1"] by auto
  have "\<bar>k\<bar> \<le> 10001 / 10000"
    using k(2) cos by linarith
  then show ?thesis
    using c0(1) c1 k(1) unfolding c_def by auto
qed

lemma cos_factor:
  "\<exists>k. np_cos64 (radians64 (to_float64 (- 31.952258602714696))) = Finite k \<and> \<bar>k\<bar> \<le> 10001 / 10000"
  using centre_values by auto

lemma projected_longitude_error:
  assumes "\<bar>a\<bar> \<le> 180" and "\<bar>k\<bar> \<le> 10001 / 10000"
  shows "\<exists>q. fmul (fmul (Finite 6371) (radians64 (Finite a))) (Finite k) = Finite q \<and>
           \<bar>q - 6371 * (5030569068109113 / 2 ^ 58) * a * k\<bar> \<le> 8 / 1000000000000"
proof -
  define L :: real where "L = 6371 * (5030569068109113 / 2 ^ 58)"
  have L: "0 < L" "L \<le> 1112 / 10"
    by (simp_all add: L_def)
  obtain p where p: "fmul (Finite 6371) (radians64 (Finite a)) = Finite p"
      "\<bar>p - L * a\<bar> \<le> 5 / 1000000000000"
    using projected_latitude_error [OF assms(1)] unfolding L_def by auto
  have La: "\<bar>L * a\<bar> \<le> 20016"
  proof -
    have "\<bar>L * a\<bar> = L * \<bar>a\<bar>"
      using L(1) by (simp add: abs_mult)
    also have "\<dots> \<le> 1112 / 10 * 180"
      using assms(1) L by (intro mult_mono) simp_all
    finally show ?thesis by simp
  qed
  have pabs: "\<bar>p\<bar> \<le> 20017"
    using p(2) La by linarith
  have pk: "\<bar>p * k\<bar> \<le> 20020"
  proof -
    have "\<bar>p * k\<bar> = \<bar>p\<bar> * \<bar>k\<bar>"
      by (simp add: abs_mult)
    also have "\<dots> \<le> 20017 * (10001 / 10000)"
      using pabs assms(2) by (intro mult_mono) simp_all
    finally show ?thesis by simp
  qed
  obtain q where q: "to_float64 (p * k) = Finite q"
      "\<bar>q - p * k\<bar> \<le> \<bar>p * k\<bar> / 9007199254740992 + 1 / 100000000000000000000"
    using to_float64_error [of "p * k"] pk by auto
  have d: "\<bar>p * k - L * a * k\<bar> \<le> 50005 / 10000000000000000"
  proof -
    have "\<bar>p * k - L * a * k\<bar> = \<bar>p - L * a\<bar> * \<bar>k\<bar>"
      by (simp add: abs_mult flip: left_diff_distrib)
    also have "\<dots> \<le> 5 / 1000000000000 * (10001 / 10000)"
      using p(2) assms(2) by (intro mult_mono) simp_all
    finally show ?thesis by simp
  qed
  have "\<bar>q - L * a * k\<bar> \<le> 8 / 1000000000000"
    using q(2) pk d by linarith
  moreover have "fmul (fmul (Finite 6371) (radians64 (Finite a))) (Finite k) = Finite q"
    using p(1) q(1) by simp
  ultimately show ?thesis
    unfolding L_def by blast
qed

subsection \<open>Three equally spaced coordinates\<close>

text \<open>
  The two differences of three projected values, when the coordinates are equally
  spaced.
\<close>

lemma spacing_bound:
  fixes pa pb pc la lb lc d1 d2 e f :: real
  assumes "\<bar>pa - la\<bar> \<le> e" and "\<bar>pb - lb\<bar> \<le> e" and "\<bar>pc - lc\<bar> \<le> e"
    and "lb - la = lc - lb"
    and "\<bar>d1 - (pb - pa)\<bar> \<le> f" and "\<bar>d2 - (pc - pb)\<bar> \<le> f"
  shows "\<bar>d1 - d2\<bar> \<le> 4 * e + 2 * f"
  using assms by linarith

lemma spacing_latitudes64:
  assumes "b - a = c - b" and "\<bar>a\<bar> \<le> 180" and "\<bar>b\<bar> \<le> 180" and "\<bar>c\<bar> \<le> 180"
  shows "\<exists>pa pb pc d1 d2.
      fst (equi_rect_project64 [Finite a, Finite b, Finite c] lons) = [Finite pa, Finite pb, Finite pc] \<and>
      fsub (Finite pb) (Finite pa) = Finite d1 \<and> fsub (Finite pc) (Finite pb) = Finite d2 \<and>
      \<bar>d1 - d2\<bar> \<le> 1 / 10000000000"
proof -
  define L :: real where "L = 6371 * (5030569068109113 / 2 ^ 58)"
  have L: "0 < L" "L \<le> 1112 / 10"
    by (simp_all add: L_def)
  have bound: "\<bar>L * x\<bar> \<le> 20016" if "\<bar>x\<bar> \<le> 180" for x
  proof -
    have "\<bar>L * x\<bar> = L * \<bar>x\<bar>"
      using L(1) by (simp add: abs_mult)
    also have "\<dots> \<le> 1112 / 10 * 180"
      using that L by (intro mult_mono) simp_all
    finally show ?thesis by simp
  qed
  obtain pa where pa: "fmul (Finite 6371) (radians64 (Finite a)) = Finite pa"
      "\<bar>pa - L * a\<bar> \<le> 5 / 1000000000000"
    using projected_latitude_error [OF assms(2)] unfolding L_def by auto
  obtain pb where pb: "fmul (Finite 6371) (radians64 (Finite b)) = Finite pb"
      "\<bar>pb - L * b\<bar> \<le> 5 / 1000000000000"
    using projected_latitude_error [OF assms(3)] unfolding L_def by auto
  obtain pc where pc: "fmul (Finite 6371) (radians64 (Finite c)) = Finite pc"
      "\<bar>pc - L * c\<bar> \<le> 5 / 1000000000000"
    using projected_latitude_error [OF assms(4)] unfolding L_def by auto
  have abs: "\<bar>pa\<bar> \<le> 30000" "\<bar>pb\<bar> \<le> 30000" "\<bar>pc\<bar> \<le> 30000"
    using pa(2) pb(2) pc(2) bound [OF assms(2)] bound [OF assms(3)] bound [OF assms(4)]
    by linarith+
  obtain d1 where d1: "fsub (Finite pb) (Finite pa) = Finite d1"
      "\<bar>d1 - (pb - pa)\<bar> \<le> 1 / 100000000000"
    using fsub_error [OF abs(2,1)] by auto
  obtain d2 where d2: "fsub (Finite pc) (Finite pb) = Finite d2"
      "\<bar>d2 - (pc - pb)\<bar> \<le> 1 / 100000000000"
    using fsub_error [OF abs(3,2)] by auto
  have "L * b - L * a = L * c - L * b"
    using assms(1) by (simp flip: right_diff_distrib)
  then have "\<bar>d1 - d2\<bar> \<le> 4 * (5 / 1000000000000) + 2 * (1 / 100000000000)"
    using pa(2) pb(2) pc(2) d1(2) d2(2) by (intro spacing_bound)
  then have "\<bar>d1 - d2\<bar> \<le> 1 / 10000000000"
    by linarith
  moreover have "fst (equi_rect_project64 [Finite a, Finite b, Finite c] lons) =
      [Finite pa, Finite pb, Finite pc]"
    using pa(1) pb(1) pc(1) by (simp add: equi_rect_project64_latitudes)
  ultimately show ?thesis
    using d1(1) d2(1) by blast
qed

lemma spacing_longitudes64:
  assumes "b - a = c - b" and "\<bar>a\<bar> \<le> 180" and "\<bar>b\<bar> \<le> 180" and "\<bar>c\<bar> \<le> 180"
  shows "\<exists>pa pb pc d1 d2.
      snd (equi_rect_project64 lats [Finite a, Finite b, Finite c]) = [Finite pa, Finite pb, Finite pc] \<and>
      fsub (Finite pb) (Finite pa) = Finite d1 \<and> fsub (Finite pc) (Finite pb) = Finite d2 \<and>
      \<bar>d1 - d2\<bar> \<le> 1 / 10000000000"
proof -
  obtain k where k: "np_cos64 (radians64 (to_float64 (- 31.952258602714696))) = Finite k"
      "\<bar>k\<bar> \<le> 10001 / 10000"
    using cos_factor by auto
  define L :: real where "L = 6371 * (5030569068109113 / 2 ^ 58)"
  have L: "0 < L" "L \<le> 1112 / 10"
    by (simp_all add: L_def)
  have bound: "\<bar>L * x * k\<bar> \<le> 20020" if "\<bar>x\<bar> \<le> 180" for x
  proof -
    have "\<bar>L * x * k\<bar> = L * \<bar>x\<bar> * \<bar>k\<bar>"
      using L(1) by (simp add: abs_mult)
    also have "\<dots> \<le> 1112 / 10 * 180 * (10001 / 10000)"
      using that L k(2) by (intro mult_mono) simp_all
    finally show ?thesis by simp
  qed
  obtain pa where pa: "fmul (fmul (Finite 6371) (radians64 (Finite a))) (Finite k) = Finite pa"
      "\<bar>pa - L * a * k\<bar> \<le> 8 / 1000000000000"
    using projected_longitude_error [OF assms(2) k(2)] unfolding L_def by auto
  obtain pb where pb: "fmul (fmul (Finite 6371) (radians64 (Finite b))) (Finite k) = Finite pb"
      "\<bar>pb - L * b * k\<bar> \<le> 8 / 1000000000000"
    using projected_longitude_error [OF assms(3) k(2)] unfolding L_def by auto
  obtain pc where pc: "fmul (fmul (Finite 6371) (radians64 (Finite c))) (Finite k) = Finite pc"
      "\<bar>pc - L * c * k\<bar> \<le> 8 / 1000000000000"
    using projected_longitude_error [OF assms(4) k(2)] unfolding L_def by auto
  have abs: "\<bar>pa\<bar> \<le> 30000" "\<bar>pb\<bar> \<le> 30000" "\<bar>pc\<bar> \<le> 30000"
    using pa(2) pb(2) pc(2) bound [OF assms(2)] bound [OF assms(3)] bound [OF assms(4)]
    by linarith+
  obtain d1 where d1: "fsub (Finite pb) (Finite pa) = Finite d1"
      "\<bar>d1 - (pb - pa)\<bar> \<le> 1 / 100000000000"
    using fsub_error [OF abs(2,1)] by auto
  obtain d2 where d2: "fsub (Finite pc) (Finite pb) = Finite d2"
      "\<bar>d2 - (pc - pb)\<bar> \<le> 1 / 100000000000"
    using fsub_error [OF abs(3,2)] by auto
  have "(b - a) * (L * k) = (c - b) * (L * k)"
    using assms(1) by simp
  then have "L * b * k - L * a * k = L * c * k - L * b * k"
    by (simp add: algebra_simps)
  then have "\<bar>d1 - d2\<bar> \<le> 4 * (8 / 1000000000000) + 2 * (1 / 100000000000)"
    using pa(2) pb(2) pc(2) d1(2) d2(2) by (intro spacing_bound)
  then have "\<bar>d1 - d2\<bar> \<le> 1 / 10000000000"
    by linarith
  moreover have "snd (equi_rect_project64 lats [Finite a, Finite b, Finite c]) =
      [Finite pa, Finite pb, Finite pc]"
    using pa(1) pb(1) pc(1) k(1) by (simp add: equi_rect_project64_longitudes)
  ultimately show ?thesis
    using d1(1) d2(1) by blast
qed

section \<open>Properties of the projection on objects\<close>

text \<open>The store can change: an append is seen through every reference to the list.\<close>

lemma list_append_changes:
  assumes "deref a w = Some (PyList xs)"
  shows "\<exists>w1. list_append a v w = Some w1 \<and> deref a w1 = Some (PyList (xs @ [v])) \<and>
           deref a w1 \<noteq> deref a w \<and> events w1 = events w"
  using assms by (auto simp: list_append_def deref_def split: if_splits)









section \<open>The claims\<close>


text \<open>
  C2, as amended: \<open>orders_unique\<close> returns the list unchanged when the order ids are
  pairwise distinct and raises \<open>ValueError\<close> "order\_id must be unique" otherwise;
  building a \<open>RouteInput\<close> whose orders all validate and two of which share an id fails
  with that error reported for the field \<open>orders\<close>, and building a \<open>RouteInput\<close> from
  orders with a repeated id fails in every case.
\<close>

theorem orders_unique_correct:
  "orders_unique v =
     (if distinct (map order_id v) then Inr v else Inl (ValueError ''order_id must be unique'')) \<and>
   (arg_orders args = Some as \<and> map OrderInput_validate as = map Inr v \<and>
    \<not> distinct (map order_id v) \<longrightarrow>
      (\<exists>es. RouteInput_validate args = Inl (ValidationError es) \<and>
         ([Key ''orders''], value_error ''order_id must be unique'') \<in> set es)) \<and>
   (arg_orders args = Some as \<and> \<not> distinct (map arg_order_id as) \<longrightarrow>
      (\<exists>es. RouteInput_validate args = Inl (ValidationError es) \<and> es \<noteq> []))"
proof (intro conjI impI)
  show "orders_unique v =
     (if distinct (map order_id v) then Inr v else Inl (ValueError ''order_id must be unique''))"
    by (rule orders_unique_eq)
next
  assume a: "arg_orders args = Some as \<and> map OrderInput_validate as = map Inr v \<and>
    \<not> distinct (map order_id v)"
  then have "OrderInput_list_validate 0 as = Inr v"
    by (simp add: OrderInput_list_validate_Inr_iff)
  with a have "orders_field (arg_orders args) = Inl [([], value_error ''order_id must be unique'')]"
    by (simp add: orders_field_def orders_unique_eq)
  then show "\<exists>es. RouteInput_validate args = Inl (ValidationError es) \<and>
         ([Key ''orders''], value_error ''order_id must be unique'') \<in> set es"
    using RouteInput_validate_orders_error [of args "[([], value_error ''order_id must be unique'')]"]
    by (auto simp: under_def)
next
  assume "arg_orders args = Some as \<and> \<not> distinct (map arg_order_id as)"
  then show "\<exists>es. RouteInput_validate args = Inl (ValidationError es) \<and> es \<noteq> []"
    using RouteInput_validate_violation [of args as] by blast
qed

theorem orders_unique_correct_witness:
  "map OrderInput_validate [order_args 16 (- 31.899364) 115.801288, order_args 16 (- 32) 116] =
     map Inr [\<lparr>order_id = 16, lat = Finite (- 31.899364), lon = Finite 115.801288\<rparr>, \<lparr>order_id = 16, lat = Finite (- 32), lon = Finite 116\<rparr>] \<and>
   orders_unique [\<lparr>order_id = 16, lat = Finite (- 31.899364), lon = Finite 115.801288\<rparr>, \<lparr>order_id = 16, lat = Finite (- 32), lon = Finite 116\<rparr>] =
     Inl (ValueError ''order_id must be unique'') \<and>
   (\<exists>es. RouteInput_validate
           (route_args 5 [order_args 16 (- 31.899364) 115.801288, order_args 16 (- 32) 116]) =
         Inl (ValidationError es) \<and>
         ([Key ''orders''], value_error ''order_id must be unique'') \<in> set es) \<and>
   orders_unique [\<lparr>order_id = 16, lat = Finite (- 31.899364), lon = Finite 115.801288\<rparr>, \<lparr>order_id = 17, lat = Finite (- 32), lon = Finite 116\<rparr>] =
     Inr [\<lparr>order_id = 16, lat = Finite (- 31.899364), lon = Finite 115.801288\<rparr>, \<lparr>order_id = 17, lat = Finite (- 32), lon = Finite 116\<rparr>] \<and>
   (\<exists>es. RouteInput_validate (route_args 5 [order_args 16 95 115.801288, order_args 16 (- 32) 116]) =
         Inl (ValidationError es) \<and> es \<noteq> [])"
  using orders_unique_correct
    [of "[\<lparr>order_id = 16, lat = Finite (- 31.899364), lon = Finite 115.801288\<rparr>, \<lparr>order_id = 16, lat = Finite (- 32), lon = Finite 116\<rparr>]"
        "route_args 5 [order_args 16 (- 31.899364) 115.801288, order_args 16 (- 32) 116]"
        "[order_args 16 (- 31.899364) 115.801288, order_args 16 (- 32) 116]"]
    orders_unique_correct
    [of "[\<lparr>order_id = 16, lat = Finite (- 31.899364), lon = Finite 115.801288\<rparr>, \<lparr>order_id = 17, lat = Finite (- 32), lon = Finite 116\<rparr>]"
        "route_args 5 [order_args 16 95 115.801288, order_args 16 (- 32) 116]"
        "[order_args 16 95 115.801288, order_args 16 (- 32) 116]"]
  by (simp add: route_args_def order_args_def OrderInput_validate_def)

text \<open>
  The claim as it was stated fails: with two orders of id 16, the first of latitude 95,
  validation reports the latitude alone, and not that the ids must be unique.
\<close>

theorem orders_unique_counterexample:
  "\<not> distinct (map arg_order_id [order_args 16 95 115.801288, order_args 16 (- 32) 116]) \<and>
   RouteInput_validate (route_args 5 [order_args 16 95 115.801288, order_args 16 (- 32) 116]) =
     Inl (ValidationError [([Key ''orders'', Index 0, Key ''lat''], less_than_equal)]) \<and>
   ([Key ''orders''], value_error ''order_id must be unique'') \<notin>
     set [([Key ''orders'', Index 0, Key ''lat''], less_than_equal)]"
  by (simp add: route_args_def order_args_def RouteInput_validate_def nested_def
      ClusterConfig_validate_def SolverConfig_validate_def orders_field_def
      OrderInput_validate_def under_def)










text \<open>
  C6, as amended: in exact arithmetic the projection maps equally spaced latitudes to
  equally spaced values, and equally spaced longitudes likewise: when \<open>b - a = c - b\<close>,
  the projected values satisfy \<open>proj b - proj a = proj c - proj b\<close>. In float64
  arithmetic, for coordinates of magnitude at most 180, the two differences of the
  projected values agree within \<open>1 / 10 ^ 10\<close> kilometres.
\<close>

theorem equal_spacing:
  assumes "b - a = c - b"
  shows "(\<exists>pa pb pc. fst (equi_rect_project [a, b, c] lons) = [pa, pb, pc] \<and> pb - pa = pc - pb) \<and>
         (\<exists>pa pb pc. snd (equi_rect_project lats [a, b, c]) = [pa, pb, pc] \<and> pb - pa = pc - pb) \<and>
         (\<bar>a\<bar> \<le> 180 \<and> \<bar>b\<bar> \<le> 180 \<and> \<bar>c\<bar> \<le> 180 \<longrightarrow>
            (\<exists>pa pb pc d1 d2.
               fst (equi_rect_project64 [Finite a, Finite b, Finite c] lons64) =
                 [Finite pa, Finite pb, Finite pc] \<and>
               fsub (Finite pb) (Finite pa) = Finite d1 \<and> fsub (Finite pc) (Finite pb) = Finite d2 \<and>
               \<bar>d1 - d2\<bar> \<le> 1 / 10000000000) \<and>
            (\<exists>pa pb pc d1 d2.
               snd (equi_rect_project64 lats64 [Finite a, Finite b, Finite c]) =
                 [Finite pa, Finite pb, Finite pc] \<and>
               fsub (Finite pb) (Finite pa) = Finite d1 \<and> fsub (Finite pc) (Finite pb) = Finite d2 \<and>
               \<bar>d1 - d2\<bar> \<le> 1 / 10000000000))"
proof -
  have c: "c = 2 * b - a"
    using assms by simp
  have lat: "6371 * radians b - 6371 * radians a = 6371 * radians c - 6371 * radians b"
    unfolding c by (simp add: radians_def algebra_simps)
  have lon: "6371 * radians b * k - 6371 * radians a * k = 6371 * radians c * k - 6371 * radians b * k"
    for k
  proof -
    have "(6371 * radians b - 6371 * radians a) * k = (6371 * radians c - 6371 * radians b) * k"
      using lat by simp
    then show ?thesis by (simp add: algebra_simps)
  qed
  let ?k = "cos (radians (- 31.952258602714696))"
  have 1: "fst (equi_rect_project [a, b, c] lons) =
      [6371 * radians a, 6371 * radians b, 6371 * radians c]"
    by (simp add: equi_rect_project_latitudes)
  have 2: "snd (equi_rect_project lats [a, b, c]) =
      [6371 * radians a * ?k, 6371 * radians b * ?k, 6371 * radians c * ?k]"
    by (simp add: equi_rect_project_longitudes)
  have exact_lat: "\<exists>pa pb pc. fst (equi_rect_project [a, b, c] lons) = [pa, pb, pc] \<and> pb - pa = pc - pb"
    using 1 lat by blast
  have exact_lon: "\<exists>pa pb pc. snd (equi_rect_project lats [a, b, c]) = [pa, pb, pc] \<and> pb - pa = pc - pb"
    using 2 lon [of ?k] by blast
  show ?thesis
    using exact_lat exact_lon spacing_latitudes64 [OF assms, of lons64]
      spacing_longitudes64 [OF assms, of lats64]
    by blast
qed

theorem equal_spacing_witness:
  "(- 4) - (- 5) = (- 3) - (- 4 :: real) \<and>
   (\<exists>pa pb pc. fst (equi_rect_project [- 5, - 4, - 3] []) = [pa, pb, pc] \<and> pb - pa = pc - pb) \<and>
   (\<exists>pa pb pc. snd (equi_rect_project [] [- 5, - 4, - 3]) = [pa, pb, pc] \<and> pb - pa = pc - pb) \<and>
   (\<exists>pa pb pc d1 d2.
      fst (equi_rect_project64 [Finite (- 5), Finite (- 4), Finite (- 3)] []) =
        [Finite pa, Finite pb, Finite pc] \<and>
      fsub (Finite pb) (Finite pa) = Finite d1 \<and> fsub (Finite pc) (Finite pb) = Finite d2 \<and>
      \<bar>d1 - d2\<bar> \<le> 1 / 10000000000) \<and>
   (\<exists>pa pb pc d1 d2.
      snd (equi_rect_project64 [] [Finite (- 5), Finite (- 4), Finite (- 3)]) =
        [Finite pa, Finite pb, Finite pc] \<and>
      fsub (Finite pb) (Finite pa) = Finite d1 \<and> fsub (Finite pc) (Finite pb) = Finite d2 \<and>
      \<bar>d1 - d2\<bar> \<le> 1 / 10000000000)"
  using equal_spacing [of "- 4" "- 5" "- 3" "[]" "[]" "[]" "[]"] by simp

text \<open>
  The claim as it was stated fails in float64 arithmetic: the latitudes -5, -4 and -3
  are equally spaced, and the differences of their projections are
  \<open>7824647346905064 / 2 ^ 46\<close> and \<open>7824647346905068 / 2 ^ 46\<close>.
\<close>

theorem equal_spacing_counterexample:
  "fst (equi_rect_project64 [Finite (- 5), Finite (- 4), Finite (- 3)] []) =
     [Finite (- 4890404591815667 / 2 ^ 43), Finite (- 7824647346905068 / 2 ^ 44),
      Finite (- 5868485510178801 / 2 ^ 44)] \<and>
   fsub (Finite (- 4)) (Finite (- 5)) = fsub (Finite (- 3)) (Finite (- 4)) \<and>
   fsub (Finite (- 7824647346905068 / 2 ^ 44)) (Finite (- 4890404591815667 / 2 ^ 43)) \<noteq>
   fsub (Finite (- 5868485510178801 / 2 ^ 44)) (Finite (- 7824647346905068 / 2 ^ 44))"
  by (simp only: equi_rect_project64_latitudes list.map radians64_m5 radians64_m4 radians64_m3
      scaled_m5 scaled_m4 scaled_m3 step_degrees_1 step_degrees_2 step_km_1 step_km_2) simp

text \<open>
  C7: a \<open>SolverConfig\<close> that validates has \<open>max_solve_size\<close> at least 1; arguments
  with \<open>max_solve_size\<close> zero or negative are rejected with a validation error for
  that field.
\<close>

theorem max_solve_size_positive:
  "(SolverConfig_validate args = Inr c \<longrightarrow>
      arg_max_solve_size args = Some (max_solve_size c) \<and> 1 \<le> max_solve_size c) \<and>
   (arg_max_solve_size args = Some m \<and> m \<le> 0 \<longrightarrow>
      (\<exists>es. SolverConfig_validate args = Inl es \<and>
         ([Key ''max_solve_size''], greater_than_equal) \<in> set es))"
  using max_solve_size_error [of args m]
  by (simp add: SolverConfig_validate_Inr_iff)

theorem max_solve_size_positive_witness:
  "SolverConfig_validate
     \<lparr>arg_solver_type = Some ''brute'', arg_distance = Some ''cartesian'', arg_max_solve_size = Some 1\<rparr> =
     Inr \<lparr>solver_type = ''brute'', distance = ''cartesian'', max_solve_size = 1\<rparr> \<and>
   (1::int) \<le> max_solve_size \<lparr>solver_type = ''brute'', distance = ''cartesian'', max_solve_size = 1\<rparr> \<and>
   (\<exists>es. SolverConfig_validate
           \<lparr>arg_solver_type = Some ''brute'', arg_distance = Some ''cartesian'', arg_max_solve_size = Some 0\<rparr> =
         Inl es \<and> ([Key ''max_solve_size''], greater_than_equal) \<in> set es)"
  using max_solve_size_positive
    [of "\<lparr>arg_solver_type = Some ''brute'', arg_distance = Some ''cartesian'', arg_max_solve_size = Some 1\<rparr>"
        "\<lparr>solver_type = ''brute'', distance = ''cartesian'', max_solve_size = 1\<rparr>" 0]
    max_solve_size_positive
    [of "\<lparr>arg_solver_type = Some ''brute'', arg_distance = Some ''cartesian'', arg_max_solve_size = Some 0\<rparr>"
        "\<lparr>solver_type = ''brute'', distance = ''cartesian'', max_solve_size = 1\<rparr>" 0]
  by (simp add: SolverConfig_validate_def)

text \<open>
  C8: an \<open>OrderInput\<close> that validates has a non-negative \<open>order_id\<close>; arguments with
  a negative \<open>order_id\<close> are rejected with a validation error for that field, and so
  is every route input holding such an order, also when all its ids are distinct.
\<close>

theorem order_id_not_negative:
  "(OrderInput_validate args = Inr ord \<longrightarrow>
      arg_order_id args = Some (order_id ord) \<and> 0 \<le> order_id ord) \<and>
   (arg_order_id args = Some i \<and> i < 0 \<longrightarrow>
      (\<exists>es. OrderInput_validate args = Inl es \<and>
         ([Key ''order_id''], greater_than_equal) \<in> set es)) \<and>
   (arg_orders route = Some as \<and> args \<in> set as \<and> arg_order_id args = Some i \<and> i < 0 \<longrightarrow>
      (\<exists>es. RouteInput_validate route = Inl (ValidationError es) \<and> es \<noteq> []))"
proof (intro conjI impI)
  assume "OrderInput_validate args = Inr ord"
  then show "arg_order_id args = Some (order_id ord)" and "0 \<le> order_id ord"
    by (simp_all add: OrderInput_validate_Inr_iff)
next
  assume "arg_order_id args = Some i \<and> i < 0"
  then show "\<exists>es. OrderInput_validate args = Inl es \<and>
      ([Key ''order_id''], greater_than_equal) \<in> set es"
    using order_id_error by blast
next
  assume a: "arg_orders route = Some as \<and> args \<in> set as \<and> arg_order_id args = Some i \<and> i < 0"
  then obtain e where "OrderInput_validate args = Inl e"
    using order_id_error by blast
  with a show "\<exists>es. RouteInput_validate route = Inl (ValidationError es) \<and> es \<noteq> []"
    using RouteInput_validate_element_error by blast
qed

theorem order_id_not_negative_witness:
  "OrderInput_validate (order_args 16 (- 31.899364) 115.801288) =
     Inr \<lparr>order_id = 16, lat = Finite (- 31.899364), lon = Finite 115.801288\<rparr> \<and>
   (0::int) \<le> order_id \<lparr>order_id = 16, lat = Finite (- 31.899364), lon = Finite 115.801288\<rparr> \<and>
   (\<exists>es. OrderInput_validate (order_args (- 1) (- 32) 116) = Inl es \<and>
      ([Key ''order_id''], greater_than_equal) \<in> set es) \<and>
   distinct (map arg_order_id [order_args 16 (- 31.899364) 115.801288, order_args (- 1) (- 32) 116]) \<and>
   (\<exists>es. RouteInput_validate
           (route_args 5 [order_args 16 (- 31.899364) 115.801288, order_args (- 1) (- 32) 116]) =
         Inl (ValidationError es) \<and> es \<noteq> [])"
  using order_id_not_negative
    [of "order_args 16 (- 31.899364) 115.801288"
        "\<lparr>order_id = 16, lat = Finite (- 31.899364), lon = Finite 115.801288\<rparr>" 0 "route_args 5 []" "[]"]
    order_id_not_negative
    [of "order_args (- 1) (- 32) 116"
        "\<lparr>order_id = 16, lat = Finite (- 31.899364), lon = Finite 115.801288\<rparr>" "- 1"
        "route_args 5 [order_args 16 (- 31.899364) 115.801288, order_args (- 1) (- 32) 116]"
        "[order_args 16 (- 31.899364) 115.801288, order_args (- 1) (- 32) 116]"]
  by (simp add: route_args_def order_args_def OrderInput_validate_def)

text \<open>
  C9: the two arrays returned have the lengths of the two input lists, whether or not the
  lists have the same length; in particular two empty lists give two empty arrays.
\<close>

theorem equi_rect_project_length:
  "length (fst (equi_rect_project lats lons)) = length lats \<and>
   length (snd (equi_rect_project lats lons)) = length lons \<and>
   equi_rect_project [] [] = ([], [])"
  by (simp add: equi_rect_project_def np_array_def np_radians_def
      scalar_times_array_def array_times_scalar_def)

text \<open>
  C10: for a \<open>RouteInput\<close> that passes validation, \<open>reformat\<close> and
  \<open>reformat_locations\<close> return the same dictionary of orders; its keys are the order
  ids, it has as many entries as there are orders, and the entry of an order's id holds
  the \<open>lat\<close> and \<open>lon\<close> of that order.
\<close>

theorem orders_dict_one_entry_per_order:
  assumes "fs locations_path = Some (Json (JObject args))" and "fs routes_path = Some (Json routes)"
    and "RouteInput_validate args = Inr locations"
  shows "\<exists>t t' lats longs d.
     reformat fs locations_path routes_path = (t, Inr (lats, longs, d, routes)) \<and>
     reformat_locations fs locations_path = (t', Inr (lats, longs, d)) \<and>
     d = orders_dict (orders locations) \<and>
     dom d = order_id ` set (orders locations) \<and>
     card (dom d) = length (orders locations) \<and>
     (\<forall>order \<in> set (orders locations).
        d (order_id order) = Some [''lat'' \<mapsto> lat order, ''lon'' \<mapsto> lon order])"
proof -
  let ?v = "orders locations"
  have distinct: "distinct (map order_id ?v)"
    using assms(3) by (rule RouteInput_validate_distinct)
  have "reformat fs locations_path routes_path =
      ([Opened locations_path, Opened routes_path, Projected (map lat ?v) (map lon ?v)],
       Inr (fst (equi_rect_project64 (map lat ?v) (map lon ?v)),
            snd (equi_rect_project64 (map lat ?v) (map lon ?v)), orders_dict ?v, routes))"
    using assms by (rule reformat_valid)
  moreover have "reformat_locations fs locations_path =
      ([Opened locations_path, Projected (map lat ?v) (map lon ?v)],
       Inr (fst (equi_rect_project64 (map lat ?v) (map lon ?v)),
            snd (equi_rect_project64 (map lat ?v) (map lon ?v)), orders_dict ?v))"
    using assms(1,3) by (rule reformat_locations_valid)
  moreover have "dom (orders_dict ?v) = order_id ` set ?v"
    by (rule orders_dict_dom)
  moreover have "card (dom (orders_dict ?v)) = length ?v"
    using distinct by (rule orders_dict_card)
  moreover have "\<forall>order \<in> set ?v.
      orders_dict ?v (order_id order) = Some [''lat'' \<mapsto> lat order, ''lon'' \<mapsto> lon order]"
    using distinct by (simp add: orders_dict_lookup)
  ultimately show ?thesis
    by blast
qed

theorem orders_dict_one_entry_per_order_witness:
  "RouteInput_validate (route_args 5 [order_args 16 (- 31.899364) 115.801288, order_args 17 (- 32) 116]) =
     Inr \<lparr>vehicle_cluster_config = \<lparr>cluster_type = ''kmeans'', cluster_extra = []\<rparr>,
          solver_config = \<lparr>solver_type = ''brute'', distance = ''cartesian'', max_solve_size = 5\<rparr>,
          orders = [\<lparr>order_id = 16, lat = Finite (- 31.899364), lon = Finite 115.801288\<rparr>,
                    \<lparr>order_id = 17, lat = Finite (- 32), lon = Finite 116\<rparr>]\<rparr> \<and>
   (\<exists>t lats longs d.
      reformat (example_files [order_args 16 (- 31.899364) 115.801288, order_args 17 (- 32) 116])
        ''data/Locations.json'' ''data/Locations_route.json'' = (t, Inr (lats, longs, d, JRoutes [[16, 17]])) \<and>
      card (dom d) = 2 \<and>
      d 16 = Some [''lat'' \<mapsto> Finite (- 31.899364), ''lon'' \<mapsto> Finite 115.801288] \<and>
      d 17 = Some [''lat'' \<mapsto> Finite (- 32), ''lon'' \<mapsto> Finite 116])"
proof -
  let ?as = "[order_args 16 (- 31.899364) 115.801288, order_args 17 (- 32) 116]"
  let ?fs = "example_files ?as"
  let ?locations =
    "\<lparr>vehicle_cluster_config = \<lparr>cluster_type = ''kmeans'', cluster_extra = []\<rparr>,
      solver_config = \<lparr>solver_type = ''brute'', distance = ''cartesian'', max_solve_size = 5\<rparr>,
      orders = [\<lparr>order_id = 16, lat = Finite (- 31.899364), lon = Finite 115.801288\<rparr>,
                \<lparr>order_id = 17, lat = Finite (- 32), lon = Finite 116\<rparr>]\<rparr>"
  have valid: "RouteInput_validate (route_args 5 ?as) = Inr ?locations"
    by (simp add: route_args_def order_args_def RouteInput_validate_def nested_def
        ClusterConfig_validate_def SolverConfig_validate_def orders_field_def
        OrderInput_validate_def orders_unique_def)
  have locations: "?fs ''data/Locations.json'' = Some (Json (JObject (route_args 5 ?as)))"
    by (simp add: example_files_def)
  have routes: "?fs ''data/Locations_route.json'' = Some (Json (JRoutes [[16, 17]]))"
    by (simp add: example_files_def)
  show ?thesis
    using orders_dict_one_entry_per_order
      [of ?fs "''data/Locations.json''" "route_args 5 ?as" "''data/Locations_route.json''"
          "JRoutes [[16, 17]]" ?locations, OF locations routes valid] valid
    by auto
qed

end
